theory Spec2Isabelle
  imports Main "HOL-Library.Word"
begin

section \<open>The statement builder: assembling SQL text\<close>

text \<open>
  The class \<open>Query\<close> of \<open>sqlite_database.h\<close> is a record of its data members. The
  \<open>std::stringstream ss\<close> is the text written to it so far (what \<open>ss.str()\<close> returns), the
  native statement pointer \<open>stmt\<close> is \<open>None\<close> when it is \<open>nullptr\<close>, and the three
  cursors are C++ \<open>int\<close>s, kept as 32-bit words that are compared as signed values. A
  prepared statement handle is identified by the SQL text it was compiled from.
\<close>

type_synonym int32 = "32 word"
type_synonym int64 = "64 word"
type_synonym uint32 = "32 word"
type_synonym uint64 = "64 word"
type_synonym double = "64 word"
type_synonym sqlite3_stmt = string

record Query =
  ss :: string
  stmt :: "sqlite3_stmt option"
  bind_idx :: int32
  col_idx :: int32
  col_count :: int32

text \<open>The state a freshly constructed \<open>Query\<close> has (the default member initialisers).\<close>

definition Query_new :: Query where
  "Query_new = \<lparr>ss = [], stmt = None, bind_idx = 0, col_idx = 0, col_count = 0\<rparr>"

text \<open>
  \<open>isspace\<close> of the C library in the default "C" locale: space, horizontal tab, line feed,
  vertical tab, form feed and carriage return.
\<close>

definition isspace :: "char \<Rightarrow> bool" where
  "isspace c = (c = CHR '' '' \<or> c = CHR 0x09 \<or> c = CHR 0x0A \<or> c = CHR 0x0B
                \<or> c = CHR 0x0C \<or> c = CHR 0x0D)"

text \<open>
  The test both text overloads and \<open>add_array\<close> share:
  \<open>!ss.str().empty() && !isspace(ss.str().back())\<close>, followed by \<open>ss << ' '\<close>.
\<close>

definition separate :: "Query \<Rightarrow> Query" where
  "separate q =
     (if ss q \<noteq> [] \<and> \<not> isspace (last (ss q)) then q\<lparr>ss := ss q @ '' ''\<rparr> else q)"

text \<open>
  \<open>Query::operator<<(const char *value)\<close>. The argument is \<open>None\<close> for a null pointer and
  otherwise the characters before the terminating NUL. Only the null pointer returns early.
\<close>

definition shl_c_str :: "string option \<Rightarrow> Query \<Rightarrow> Query" where
  "shl_c_str v q =
     (case v of
        None \<Rightarrow> q
      | Some s \<Rightarrow> (let q1 = separate q in q1\<lparr>ss := ss q1 @ s\<rparr>))"

text \<open>\<open>Query::operator<<(const std::string &value)\<close>: an empty string returns early.\<close>

definition shl_string :: "string \<Rightarrow> Query \<Rightarrow> Query" where
  "shl_string v q =
     (if v = [] then q
      else (let q1 = separate q in q1\<lparr>ss := ss q1 @ v\<rparr>))"

text \<open>
  The member template \<open>operator<<(const T &value)\<close> of the header, for every other type:
  it writes a space whenever the buffer is not empty. What \<open>ss << value\<close> prints for a
  \<open>T\<close> is the parameter \<open>print\<close>.
\<close>

definition shl_T :: "('a \<Rightarrow> string) \<Rightarrow> 'a \<Rightarrow> Query \<Rightarrow> Query" where
  "shl_T print v q =
     (let q1 = (if ss q \<noteq> [] then q\<lparr>ss := ss q @ '' ''\<rparr> else q)
      in q1\<lparr>ss := ss q1 @ print v\<rparr>)"

text \<open>
  A text fragment handed to one of the two text overloads, and a chain
  \<open>query << f1 << f2 << ...\<close> of such appends, applied left to right.
\<close>

datatype fragment = c_str "string option" | std_string string

fun text_of :: "fragment \<Rightarrow> string" where
  "text_of (c_str None) = []"
| "text_of (c_str (Some s)) = s"
| "text_of (std_string s) = s"

fun shl :: "Query \<Rightarrow> fragment \<Rightarrow> Query" where
  "shl q (c_str v) = shl_c_str v q"
| "shl q (std_string v) = shl_string v q"

definition shl_all :: "Query \<Rightarrow> fragment list \<Rightarrow> Query" where
  "shl_all q fs = foldl shl q fs"

text \<open>
  \<open>Query::add_array(size_t columns)\<close>. The \<open>for\<close> loop over \<open>i\<close> writes \<open>"(?"\<close> for
  \<open>i = 0\<close> and \<open>",?"\<close> afterwards. The counters are \<open>size_t\<close>; they only count up to the
  given bound, so they are natural numbers here.
\<close>

function add_array_for :: "nat \<Rightarrow> nat \<Rightarrow> Query \<Rightarrow> Query" where
  "add_array_for columns i q =
     (if i < columns
      then add_array_for columns (Suc i) (q\<lparr>ss := ss q @ (if i \<noteq> 0 then '',?'' else ''(?'')\<rparr>)
      else q)"
  by pat_completeness auto
termination
  by (relation "measure (\<lambda>(columns, i, q). columns - i)") auto

declare add_array_for.simps [simp del]

definition add_array :: "nat \<Rightarrow> Query \<Rightarrow> Query" where
  "add_array columns q =
     (let q1 = separate q;
          q2 = (if columns > 0 then add_array_for columns 0 q1 else q1\<lparr>ss := ss q1 @ ''(''\<rparr>)
      in q2\<lparr>ss := ss q2 @ '')''\<rparr>)"

text \<open>
  \<open>Query::add_array(size_t columns, size_t rows)\<close>: a comma before every group but the
  first, then the one-argument \<open>add_array\<close>, which makes its own separator test.
\<close>

function add_array_rows_for :: "nat \<Rightarrow> nat \<Rightarrow> nat \<Rightarrow> Query \<Rightarrow> Query" where
  "add_array_rows_for columns rows i q =
     (if i < rows
      then add_array_rows_for columns rows (Suc i)
             (add_array columns (if i \<noteq> 0 then q\<lparr>ss := ss q @ '',''\<rparr> else q))
      else q)"
  by pat_completeness auto
termination
  by (relation "measure (\<lambda>(columns, rows, i, q). rows - i)") auto

declare add_array_rows_for.simps [simp del]

definition add_array_rows :: "nat \<Rightarrow> nat \<Rightarrow> Query \<Rightarrow> Query" where
  "add_array_rows columns rows q = add_array_rows_for columns rows 0 q"

text \<open>
  Reference texts, to compare the builder with. \<open>join sep xs\<close> puts \<open>sep\<close> between
  consecutive elements of \<open>xs\<close>; \<open>marker_group c\<close> is one parenthesised list of \<open>c\<close> markers.
\<close>

fun join :: "string \<Rightarrow> string list \<Rightarrow> string" where
  "join sep [] = []"
| "join sep [x] = x"
| "join sep (x # y # xs) = x @ sep @ join sep (y # xs)"

definition marker_group :: "nat \<Rightarrow> string" where
  "marker_group c = ''('' @ join '','' (replicate c ''?'') @ '')''"

text \<open>
  What a chain of appends assembles from an empty buffer: a space between two fragments
  only where the earlier one does not end in whitespace.
\<close>

fun assembled :: "string list \<Rightarrow> string" where
  "assembled [] = []"
| "assembled [x] = x"
| "assembled (x # y # xs) =
     x @ (if isspace (last x) then [] else '' '') @ assembled (y # xs)"

section \<open>The native engine and the exceptions\<close>

text \<open>
  The exceptions the wrapper lets escape: its own \<open>DatabaseException\<close>, and the two that
  \<open>std::stoll\<close> throws. Each carries the text \<open>what()\<close> returns.
\<close>

datatype cpp_exception =
    DatabaseException string
  | invalid_argument string
  | out_of_range string

fun what :: "cpp_exception \<Rightarrow> string" where
  "what (DatabaseException message) = message"
| "what (invalid_argument message) = message"
| "what (out_of_range message) = message"

text \<open>
  The engine is a library outside the repository. Its result codes are kept apart only as
  far as the wrapper tells them apart, and its storage classes are those of
  \<open>sqlite3_column_type\<close>.
\<close>

datatype sqlite_rc = SQLITE_OK | SQLITE_ROW | SQLITE_DONE | SQLITE_FAILURE nat

datatype sqlite_type = SQLITE_INTEGER | SQLITE_FLOAT | SQLITE_TEXT | SQLITE_BLOB | SQLITE_NULL

text \<open>
  The calls into the engine that change its state, with the arguments the wrapper passes
  and the code the engine returned.
\<close>

datatype native_call =
    Prepare string sqlite_rc
  | Step sqlite3_stmt sqlite_rc
  | Finalize sqlite3_stmt
  | BindInt64 "sqlite3_stmt option" int32 int64 sqlite_rc

text \<open>
  An open connection (\<open>sqlite3 *db\<close>): the calls made on it so far, oldest first, and
  what the engine answers to the next call after a given history. The answers are
  parameters: nothing is assumed about them. \<open>sqlite3_compiled\<close> tells whether a
  successful \<open>sqlite3_prepare_v2\<close> stored a statement or a null pointer (as it does for
  text without SQL). The column accessors read the current row and are not recorded.
\<close>

record sqlite3 =
  calls :: "native_call list"
  sqlite3_prepare_v2 :: "native_call list \<Rightarrow> string \<Rightarrow> sqlite_rc"
  sqlite3_compiled :: "native_call list \<Rightarrow> string \<Rightarrow> bool"
  sqlite3_step :: "native_call list \<Rightarrow> sqlite3_stmt \<Rightarrow> sqlite_rc"
  sqlite3_bind_int64 :: "native_call list \<Rightarrow> sqlite3_stmt option \<Rightarrow> int32 \<Rightarrow> int64 \<Rightarrow> sqlite_rc"
  sqlite3_errmsg :: "native_call list \<Rightarrow> string"
  sqlite3_column_count :: "native_call list \<Rightarrow> sqlite3_stmt option \<Rightarrow> int32"
  sqlite3_column_type :: "native_call list \<Rightarrow> sqlite3_stmt option \<Rightarrow> int32 \<Rightarrow> sqlite_type"
  sqlite3_column_text :: "native_call list \<Rightarrow> sqlite3_stmt option \<Rightarrow> int32 \<Rightarrow> string option"
  sqlite3_column_int :: "native_call list \<Rightarrow> sqlite3_stmt option \<Rightarrow> int32 \<Rightarrow> int32"
  sqlite3_column_int64 :: "native_call list \<Rightarrow> sqlite3_stmt option \<Rightarrow> int32 \<Rightarrow> int64"
  sqlite3_column_double :: "native_call list \<Rightarrow> sqlite3_stmt option \<Rightarrow> int32 \<Rightarrow> double"

definition record_call :: "native_call \<Rightarrow> sqlite3 \<Rightarrow> sqlite3" where
  "record_call c e = e\<lparr>calls := calls e @ [c]\<rparr>"

text \<open>\<open>DatabaseException::DatabaseException(sqlite3 *db)\<close>; \<open>None\<close> is the null pointer.\<close>

definition DatabaseException_db :: "sqlite3 option \<Rightarrow> cpp_exception" where
  "DatabaseException_db db =
     DatabaseException
       (case db of Some e \<Rightarrow> sqlite3_errmsg e (calls e) | None \<Rightarrow> ''Database isn't open'')"

text \<open>
  \<open>SqliteDatabase::exec\<close>, on an open connection. An operation returns what it threw
  (\<open>Inl\<close>) or its result (\<open>Inr\<close>), together with the state it leaves behind.
\<close>

definition exec :: "string \<Rightarrow> sqlite3 \<Rightarrow> (cpp_exception + unit) \<times> sqlite3" where
  "exec sql e =
     (let rc = sqlite3_prepare_v2 e (calls e) sql;
          e1 = record_call (Prepare sql rc) e
      in if rc \<noteq> SQLITE_OK then (Inl (DatabaseException_db (Some e1)), e1)
         else
           (let res = sqlite3_step e1 (calls e1) sql;
                e2 = record_call (Step sql res) e1;
                e3 = record_call (Finalize sql) e2
            in if res \<noteq> SQLITE_ROW \<and> res \<noteq> SQLITE_DONE
               then (Inl (DatabaseException_db (Some e3)), e3)
               else (Inr (), e3)))"

text \<open>
  The SQL texts handed to the engine in a stretch of calls, those of them whose step the
  engine completed, and the calls made between two states of the connection.
\<close>

fun issued :: "native_call list \<Rightarrow> string list" where
  "issued [] = []"
| "issued (Prepare sql rc # cs) = sql # issued cs"
| "issued (c # cs) = issued cs"

fun accepted :: "native_call list \<Rightarrow> string list" where
  "accepted [] = []"
| "accepted (Step sql rc # cs) =
     (if rc = SQLITE_ROW \<or> rc = SQLITE_DONE then sql # accepted cs else accepted cs)"
| "accepted (c # cs) = accepted cs"

definition calls_since :: "sqlite3 \<Rightarrow> sqlite3 \<Rightarrow> native_call list" where
  "calls_since e e' = drop (length (calls e)) (calls e')"

section \<open>The transaction scope\<close>

text \<open>
  \<open>class Transaction\<close>. The connection its \<open>std::shared_ptr<SqliteDatabase> database\<close> shares
  is the engine state passed to every operation, so the member is reduced to what the
  code tests: whether it is non-null. \<open>exception_count\<close> is the \<open>const int\<close> snapshot.
\<close>

record Transaction =
  database :: bool
  exception_count :: int32

text \<open>
  The constructor; \<open>uncaught\<close> is what \<open>std::uncaught_exceptions()\<close> returns at that
  moment. When \<open>BEGIN\<close> throws, no object comes into being.
\<close>

definition Transaction_new ::
  "int32 \<Rightarrow> sqlite3 \<Rightarrow> (cpp_exception + Transaction) \<times> sqlite3" where
  "Transaction_new uncaught e =
     (case exec ''BEGIN'' e of
        (Inl ex, e') \<Rightarrow> (Inl ex, e')
      | (Inr u, e') \<Rightarrow> (Inr \<lparr>database = True, exception_count = uncaught\<rparr>, e'))"

text \<open>
  \<open>Transaction::~Transaction\<close>; \<open>uncaught\<close> is \<open>std::uncaught_exceptions()\<close> at destruction.
  The second component is the text written to \<open>std::cerr\<close>.
\<close>

definition Transaction_destroy ::
  "int32 \<Rightarrow> Transaction \<Rightarrow> sqlite3 \<Rightarrow> (cpp_exception + unit) \<times> string \<times> sqlite3" where
  "Transaction_destroy uncaught t e =
     (if \<not> database t then (Inr (), [], e)
      else if exception_count t = uncaught
      then (case exec ''COMMIT'' e of (r, e') \<Rightarrow> (r, [], e'))
      else
        (case exec ''ROLLBACK'' e of
           (Inl ex, e') \<Rightarrow>
             (Inr (), ''Transaction rollback error: '' @ what ex @ [CHR 0x0A], e')
         | (Inr u, e') \<Rightarrow> (Inr (), [], e')))"

text \<open>\<open>Transaction::commit\<close> and \<open>Transaction::rollback\<close>.\<close>

definition commit ::
  "Transaction \<Rightarrow> sqlite3 \<Rightarrow> (cpp_exception + unit) \<times> Transaction \<times> sqlite3" where
  "commit t e =
     (if \<not> database t
      then (Inl (DatabaseException ''Can't commit on inactive transaction''), t, e)
      else
        (case exec ''COMMIT'' e of
           (Inl ex, e') \<Rightarrow> (Inl ex, t, e')
         | (Inr u, e') \<Rightarrow> (Inr (), t\<lparr>database := False\<rparr>, e')))"

definition rollback ::
  "Transaction \<Rightarrow> sqlite3 \<Rightarrow> (cpp_exception + unit) \<times> Transaction \<times> sqlite3" where
  "rollback t e =
     (if \<not> database t
      then (Inl (DatabaseException ''Can't rollback on inactive transaction''), t, e)
      else
        (case exec ''ROLLBACK'' e of
           (Inl ex, e') \<Rightarrow> (Inl ex, t, e')
         | (Inr u, e') \<Rightarrow> (Inr (), t\<lparr>database := False\<rparr>, e')))"

text \<open>
  The life of one scope after its construction: any number of explicit calls, whose
  exceptions the caller may catch, and then the destructor.
\<close>

datatype scope_call = Commit | Rollback

fun do_call :: "scope_call \<Rightarrow> Transaction \<Rightarrow> sqlite3 \<Rightarrow> (cpp_exception + unit) \<times> Transaction \<times> sqlite3" where
  "do_call Commit t e = commit t e"
| "do_call Rollback t e = rollback t e"

fun scope_calls :: "scope_call list \<Rightarrow> Transaction \<Rightarrow> sqlite3 \<Rightarrow> Transaction \<times> sqlite3" where
  "scope_calls [] t e = (t, e)"
| "scope_calls (c # cs) t e = (case do_call c t e of (r, t', e') \<Rightarrow> scope_calls cs t' e')"

definition scope_life :: "scope_call list \<Rightarrow> int32 \<Rightarrow> Transaction \<Rightarrow> sqlite3 \<Rightarrow> sqlite3" where
  "scope_life cs uncaught t e =
     (case scope_calls cs t e of (t', e') \<Rightarrow> snd (snd (Transaction_destroy uncaught t' e')))"

section \<open>The statement cursor: binding and reading columns\<close>

text \<open>
  \<open>Query::prepare\<close>: compiles the accumulated text and caches the column count. On failure
  the engine leaves a null statement pointer.
\<close>

definition prepare :: "Query \<Rightarrow> sqlite3 \<Rightarrow> (cpp_exception + unit) \<times> Query \<times> sqlite3" where
  "prepare q e =
     (let rc = sqlite3_prepare_v2 e (calls e) (ss q);
          e1 = record_call (Prepare (ss q) rc) e
      in if rc \<noteq> SQLITE_OK
         then (Inl (DatabaseException_db (Some e1)), q\<lparr>stmt := None\<rparr>, e1)
         else
           (let q1 = q\<lparr>stmt := (if sqlite3_compiled e1 (calls e1) (ss q) then Some (ss q) else None)\<rparr>
            in (Inr (), q1\<lparr>col_count := sqlite3_column_count e1 (calls e1) (stmt q1)\<rparr>, e1)))"

text \<open>\<open>Query::bind(int64_t value)\<close>: prepares first when there is no statement yet.\<close>

definition bind_int64 ::
  "int64 \<Rightarrow> Query \<Rightarrow> sqlite3 \<Rightarrow> (cpp_exception + unit) \<times> Query \<times> sqlite3" where
  "bind_int64 v q e =
     (case (if stmt q = None then prepare q e else (Inr (), q, e)) of
        (Inl ex, q1, e1) \<Rightarrow> (Inl ex, q1, e1)
      | (Inr u, q1, e1) \<Rightarrow>
          (let q2 = q1\<lparr>bind_idx := bind_idx q1 + 1\<rparr>;
               rc = sqlite3_bind_int64 e1 (calls e1) (stmt q2) (bind_idx q2) v;
               e2 = record_call (BindInt64 (stmt q2) (bind_idx q2) v rc) e1
           in if rc \<noteq> SQLITE_OK then (Inl (DatabaseException_db (Some e2)), q2, e2)
              else (Inr (), q2, e2)))"

text \<open>
  \<open>Query::bind(uint32_t value)\<close> widens; \<open>Query::bind(uint64_t value)\<close> compares the value,
  as an unsigned number, with \<open>std::numeric_limits<int64_t>::max()\<close>, and the
  \<open>static_cast<int64_t>\<close> keeps the 64 bits.
\<close>

definition bind_uint32 ::
  "uint32 \<Rightarrow> Query \<Rightarrow> sqlite3 \<Rightarrow> (cpp_exception + unit) \<times> Query \<times> sqlite3" where
  "bind_uint32 v q e = bind_int64 (ucast v) q e"

definition int64_max :: int64 where
  "int64_max = 0x7FFFFFFFFFFFFFFF"

definition bind_uint64 ::
  "uint64 \<Rightarrow> Query \<Rightarrow> sqlite3 \<Rightarrow> (cpp_exception + unit) \<times> Query \<times> sqlite3" where
  "bind_uint64 v q e =
     (if int64_max < v
      then (Inl (DatabaseException ''Can't bind value. Sqlite doesn't support uint64 type''), q, e)
      else bind_int64 v q e)"

text \<open>
  The extraction methods. Each returns what it threw or its value, and the \<open>Query\<close>
  afterwards. \<open>is_null\<close> is a \<open>const\<close> method; it is given the same shape so that it can
  be compared with the others.
\<close>

definition is_null :: "Query \<Rightarrow> sqlite3 \<Rightarrow> (cpp_exception + bool) \<times> Query" where
  "is_null q e = (Inr (sqlite3_column_type e (calls e) (stmt q) (col_idx q) = SQLITE_NULL), q)"

definition skip :: "Query \<Rightarrow> (cpp_exception + unit) \<times> Query" where
  "skip q =
     (if col_count q \<le>s col_idx q then (Inl (DatabaseException ''Column is out of range''), q)
      else (Inr (), q\<lparr>col_idx := col_idx q + 1\<rparr>))"

text \<open>
  \<open>Query::get_string\<close>: a null text pointer gives the empty string; otherwise the string
  is built from the characters before the terminating NUL.
\<close>

definition get_string :: "Query \<Rightarrow> sqlite3 \<Rightarrow> (cpp_exception + string) \<times> Query" where
  "get_string q e =
     (if col_count q \<le>s col_idx q then (Inl (DatabaseException ''Column is out of range''), q)
      else
        (let str = sqlite3_column_text e (calls e) (stmt q) (col_idx q)
         in (Inr (case str of Some s \<Rightarrow> s | None \<Rightarrow> []), q\<lparr>col_idx := col_idx q + 1\<rparr>)))"

definition get_int32 :: "Query \<Rightarrow> sqlite3 \<Rightarrow> (cpp_exception + int32) \<times> Query" where
  "get_int32 q e =
     (if col_count q \<le>s col_idx q then (Inl (DatabaseException ''Column is out of range''), q)
      else (Inr (sqlite3_column_int e (calls e) (stmt q) (col_idx q)),
            q\<lparr>col_idx := col_idx q + 1\<rparr>))"

definition get_int64 :: "Query \<Rightarrow> sqlite3 \<Rightarrow> (cpp_exception + int64) \<times> Query" where
  "get_int64 q e =
     (if col_count q \<le>s col_idx q then (Inl (DatabaseException ''Column is out of range''), q)
      else (Inr (sqlite3_column_int64 e (calls e) (stmt q) (col_idx q)),
            q\<lparr>col_idx := col_idx q + 1\<rparr>))"

text \<open>
  \<open>Query::get_uint32\<close> and \<open>Query::get_uint64\<close> call \<open>get_int64\<close> and then test the value
  as a signed 64-bit number; the comparison with
  \<open>std::numeric_limits<uint32_t>::max()\<close> is made in \<open>int64_t\<close>.
\<close>

definition get_uint32 :: "Query \<Rightarrow> sqlite3 \<Rightarrow> (cpp_exception + uint32) \<times> Query" where
  "get_uint32 q e =
     (case get_int64 q e of
        (Inl ex, q') \<Rightarrow> (Inl ex, q')
      | (Inr v, q') \<Rightarrow>
          (if v <s 0 \<or> 4294967295 <s v
           then (Inl (DatabaseException ''uint32 value is out of range''), q')
           else (Inr (ucast v), q')))"

definition get_uint64 :: "Query \<Rightarrow> sqlite3 \<Rightarrow> (cpp_exception + uint64) \<times> Query" where
  "get_uint64 q e =
     (case get_int64 q e of
        (Inl ex, q') \<Rightarrow> (Inl ex, q')
      | (Inr v, q') \<Rightarrow>
          (if v <s 0 then (Inl (DatabaseException ''uint64 value is out of range''), q')
           else (Inr v, q')))"

definition get_double :: "Query \<Rightarrow> sqlite3 \<Rightarrow> (cpp_exception + double) \<times> Query" where
  "get_double q e =
     (if col_count q \<le>s col_idx q then (Inl (DatabaseException ''Column is out of range''), q)
      else (Inr (sqlite3_column_double e (calls e) (stmt q) (col_idx q)),
            q\<lparr>col_idx := col_idx q + 1\<rparr>))"

subsection \<open>The delimited integer array\<close>

text \<open>
  \<open>std::stoll\<close> with base 10, as the C++ standard defines it through \<open>strtoll\<close>: leading
  whitespace is skipped, one sign is optional, then the longest run of decimal digits is
  taken and whatever follows it is ignored. No digit gives \<open>std::invalid_argument\<close>, a
  value outside \<open>long long\<close> gives \<open>std::out_of_range\<close>.
\<close>

definition isdigit :: "char \<Rightarrow> bool" where
  "isdigit c = (48 \<le> (of_char c :: nat) \<and> (of_char c :: nat) \<le> 57)"

fun decimal :: "int \<Rightarrow> string \<Rightarrow> int" where
  "decimal acc [] = acc"
| "decimal acc (c # cs) = decimal (acc * 10 + (of_char c - 48)) cs"

definition stoll :: "string \<Rightarrow> cpp_exception + int64" where
  "stoll str =
     (let s1 = dropWhile isspace str;
          negative = (s1 \<noteq> [] \<and> hd s1 = CHR ''-'');
          s2 = (if s1 \<noteq> [] \<and> (hd s1 = CHR ''-'' \<or> hd s1 = CHR ''+'') then tl s1 else s1);
          digits = takeWhile isdigit s2
      in if digits = [] then Inl (invalid_argument ''stoll'')
         else
           (let n = decimal 0 digits;
                v = (if negative then - n else n)
            in if v < - (2 ^ 63) \<or> 2 ^ 63 - 1 < v then Inl (out_of_range ''stoll'')
               else Inr (word_of_int v)))"

text \<open>
  \<open>std::getline(ss, tmp, delimiter)\<close> on the unread rest of the stream: it fails when
  nothing is left, and otherwise yields the characters up to the next delimiter or the
  end, leaving what follows that delimiter.
\<close>

definition getline :: "char \<Rightarrow> string \<Rightarrow> (string \<times> string) option" where
  "getline delimiter s =
     (if s = [] then None
      else Some (takeWhile (\<lambda>c. c \<noteq> delimiter) s,
                 drop 1 (dropWhile (\<lambda>c. c \<noteq> delimiter) s)))"

text \<open>The \<open>while\<close> loop of \<open>Query::get_int64_array\<close>, and the method.\<close>

function get_int64_array_while ::
  "char \<Rightarrow> string \<Rightarrow> int64 list \<Rightarrow> cpp_exception + int64 list" where
  "get_int64_array_while delimiter s result =
     (case getline delimiter s of
        None \<Rightarrow> Inr result
      | Some (tmp, s') \<Rightarrow>
          (case stoll tmp of
             Inl ex \<Rightarrow> Inl ex
           | Inr v \<Rightarrow> get_int64_array_while delimiter s' (result @ [v])))"
  by pat_completeness auto
termination
proof (relation "measure (\<lambda>(delimiter, s, result). length s)")
  fix delimiter :: char and s :: string and result :: "int64 list" and x2 tmp s' v
  assume g: "getline delimiter s = Some x2" and x: "(tmp, s') = x2"
  have "s \<noteq> []" using g by (auto simp: getline_def split: if_splits)
  moreover have "s' = drop 1 (dropWhile (\<lambda>c. c \<noteq> delimiter) s)"
    using g x by (auto simp: getline_def split: if_splits)
  moreover have "length (dropWhile (\<lambda>c. c \<noteq> delimiter) s) \<le> length s"
    by (rule length_dropWhile_le)
  ultimately have "length s' < length s" by (cases s) auto
  then show "((delimiter, s', result @ [v]), delimiter, s, result)
               \<in> measure (\<lambda>(delimiter, s, result). length s)" by simp
qed simp

declare get_int64_array_while.simps [simp del]

definition get_int64_array ::
  "char \<Rightarrow> Query \<Rightarrow> sqlite3 \<Rightarrow> (cpp_exception + int64 list) \<times> Query" where
  "get_int64_array delimiter q e =
     (case get_string q e of
        (Inl ex, q') \<Rightarrow> (Inl ex, q')
      | (Inr s, q') \<Rightarrow> (get_int64_array_while delimiter s [], q'))"

text \<open>All the segments the loop reads from a text, in order.\<close>

function segments :: "char \<Rightarrow> string \<Rightarrow> string list" where
  "segments delimiter s =
     (case getline delimiter s of
        None \<Rightarrow> []
      | Some (tmp, s') \<Rightarrow> tmp # segments delimiter s')"
  by pat_completeness auto
termination
proof (relation "measure (\<lambda>(delimiter, s). length s)")
  fix delimiter :: char and s :: string and x2 tmp s'
  assume g: "getline delimiter s = Some x2" and x: "(tmp, s') = x2"
  have "s \<noteq> []" using g by (auto simp: getline_def split: if_splits)
  moreover have "s' = drop 1 (dropWhile (\<lambda>c. c \<noteq> delimiter) s)"
    using g x by (auto simp: getline_def split: if_splits)
  moreover have "length (dropWhile (\<lambda>c. c \<noteq> delimiter) s) \<le> length s"
    by (rule length_dropWhile_le)
  ultimately have "length s' < length s" by (cases s) auto
  then show "((delimiter, s'), delimiter, s) \<in> measure (\<lambda>(delimiter, s). length s)" by simp
qed simp

declare segments.simps [simp del]

section \<open>Concrete engines and objects\<close>

text \<open>
  An engine that compiles everything, answers a step by the statement's text and a bind
  by a fixed code, and whose current row has one column with the given text and integer.
\<close>

definition engine :: "(string \<Rightarrow> sqlite_rc) \<Rightarrow> sqlite_rc \<Rightarrow> string option \<Rightarrow> int64 \<Rightarrow> sqlite3" where
  "engine step_result bind_result text number =
     \<lparr>calls = [],
      sqlite3_prepare_v2 = (\<lambda>h sql. SQLITE_OK),
      sqlite3_compiled = (\<lambda>h sql. sql \<noteq> []),
      sqlite3_step = (\<lambda>h sql. step_result sql),
      sqlite3_bind_int64 = (\<lambda>h s i v. bind_result),
      sqlite3_errmsg = (\<lambda>h. ''engine error''),
      sqlite3_column_count = (\<lambda>h s. 1),
      sqlite3_column_type = (\<lambda>h s i. if text = None then SQLITE_NULL else SQLITE_TEXT),
      sqlite3_column_text = (\<lambda>h s i. text),
      sqlite3_column_int = (\<lambda>h s i. ucast number),
      sqlite3_column_int64 = (\<lambda>h s i. number),
      sqlite3_column_double = (\<lambda>h s i. 0)\<rparr>"

definition all_done :: "string \<Rightarrow> sqlite_rc" where
  "all_done sql = SQLITE_DONE"

definition commit_busy :: "string \<Rightarrow> sqlite_rc" where
  "commit_busy sql = (if sql = ''COMMIT'' then SQLITE_FAILURE 5 else SQLITE_DONE)"

definition all_busy :: "string \<Rightarrow> sqlite_rc" where
  "all_busy sql = SQLITE_FAILURE 5"

text \<open>A statement on a row: prepared, with one column, the cursor on column \<open>i\<close>.\<close>

definition on_row :: "int32 \<Rightarrow> Query" where
  "on_row i = \<lparr>ss = ''SELECT a FROM t'', stmt = Some ''SELECT a FROM t'', bind_idx = 0,
               col_idx = i, col_count = 1\<rparr>"

definition active :: Transaction where
  "active = \<lparr>database = True, exception_count = 0\<rparr>"

section \<open>Properties of the text builder\<close>

lemma ss_separate:
  "ss (separate q) = ss q @ (if ss q \<noteq> [] \<and> \<not> isspace (last (ss q)) then '' '' else [])"
  by (simp add: separate_def)

lemma ss_shl:
  "text_of f \<noteq> [] \<Longrightarrow>
   ss (shl q f) =
     ss q @ (if ss q \<noteq> [] \<and> \<not> isspace (last (ss q)) then '' '' else []) @ text_of f"
  by (cases f rule: text_of.cases) (simp_all add: shl_c_str_def shl_string_def Let_def ss_separate)

lemma ss_shl_T:
  "ss (shl_T print v q) = ss q @ (if ss q \<noteq> [] then '' '' else []) @ print v"
  by (simp add: shl_T_def Let_def)

lemma ss_foldl_shl:
  "\<forall>f \<in> set fs. text_of f \<noteq> [] \<Longrightarrow> fs \<noteq> [] \<Longrightarrow>
   ss (foldl shl q fs) =
     ss q @ (if ss q \<noteq> [] \<and> \<not> isspace (last (ss q)) then '' '' else [])
       @ assembled (map text_of fs)"
proof (induction fs arbitrary: q)
  case Nil
  then show ?case by simp
next
  case (Cons f fs)
  show ?case
  proof (cases fs)
    case Nil
    with Cons.prems show ?thesis by (simp add: ss_shl)
  next
    case (Cons g gs)
    have f: "text_of f \<noteq> []" using Cons.prems by simp
    have "ss (foldl shl (shl q f) fs) =
      ss (shl q f)
        @ (if ss (shl q f) \<noteq> [] \<and> \<not> isspace (last (ss (shl q f))) then '' '' else [])
        @ assembled (map text_of fs)"
      using Cons.IH [of "shl q f"] Cons.prems Cons by simp
    then show ?thesis using f Cons by (simp add: ss_shl)
  qed
qed

lemma ss_shl_all_empty:
  "\<forall>f \<in> set fs. text_of f \<noteq> [] \<Longrightarrow>
   ss (shl_all (q\<lparr>ss := []\<rparr>) fs) = assembled (map text_of fs)"
proof (cases fs)
  case Nil
  then show ?thesis by (simp add: shl_all_def)
next
  case (Cons g gs)
  assume "\<forall>f \<in> set fs. text_of f \<noteq> []"
  then show ?thesis
    using ss_foldl_shl [of fs "q\<lparr>ss := []\<rparr>"] Cons by (simp add: shl_all_def)
qed

lemma ss_add_array_for:
  "ss (add_array_for c i q) =
     ss q @ concat (map (\<lambda>k. if k \<noteq> 0 then '',?'' else ''(?'') [i..<c])"
proof (induction c i q rule: add_array_for.induct)
  case (1 columns i q)
  show ?case
  proof (cases "i < columns")
    case True
    then show ?thesis
      using 1 by (subst add_array_for.simps) (simp add: upt_conv_Cons)
  next
    case False
    then show ?thesis by (subst add_array_for.simps) simp
  qed
qed

lemma join_replicate: "join sep (replicate (Suc n) x) = x @ concat (replicate n (sep @ x))"
  by (induction n) simp_all

lemma markers:
  "concat (map (\<lambda>k. if 0 < k then '',?'' else ''(?'') [0..<Suc n]) =
     ''(?'' @ concat (replicate n '',?'')"
proof -
  have "map (\<lambda>k. if k \<noteq> 0 then '',?'' else ''(?'') [Suc 0..<Suc n] = replicate n '',?''"
    by (induction n) (simp_all add: replicate_append_same)
  then show ?thesis by (simp add: upt_conv_Cons del: upt_Suc)
qed

lemma ss_add_array: "ss (add_array c q) = ss (separate q) @ marker_group c"
proof (cases c)
  case 0
  then show ?thesis by (simp add: add_array_def marker_group_def Let_def)
next
  case (Suc n)
  then show ?thesis
    by (simp add: add_array_def marker_group_def ss_add_array_for markers join_replicate Let_def
        del: upt_Suc replicate.simps)
qed

lemma marker_group_last: "marker_group c \<noteq> [] \<and> last (marker_group c) = CHR '')''"
  by (simp add: marker_group_def)

lemma ss_add_array_rows_for:
  "i \<noteq> 0 \<Longrightarrow>
   ss (add_array_rows_for c r i q) = ss q @ concat (replicate (r - i) ('', '' @ marker_group c))"
proof (induction c r i q rule: add_array_rows_for.induct)
  case (1 columns rows i q)
  show ?case
  proof (cases "i < rows")
    case True
    then have "rows - i = Suc (rows - Suc i)" by simp
    then show ?thesis
      using 1 True
      by (subst add_array_rows_for.simps) (simp add: ss_add_array ss_separate isspace_def)
  next
    case False
    then show ?thesis by (subst add_array_rows_for.simps) simp
  qed
qed

lemma ss_add_array_rows:
  "ss (add_array_rows c r (q\<lparr>ss := []\<rparr>)) = join '', '' (replicate r (marker_group c))"
proof (cases r)
  case 0
  then show ?thesis
    by (simp add: add_array_rows_def add_array_rows_for.simps)
next
  case (Suc n)
  then show ?thesis
    by (simp add: add_array_rows_def add_array_rows_for.simps [of c "Suc n" 0]
        ss_add_array_rows_for ss_add_array ss_separate join_replicate del: replicate.simps)
qed

lemma marker_group_values:
  "marker_group 0 = ''()''" "marker_group 2 = ''(?,?)''" "marker_group 3 = ''(?,?,?)''"
  by (simp_all add: marker_group_def numeral_2_eq_2 numeral_3_eq_3)

text \<open>
  C3, as the code has it. From an empty buffer \<open>add_array(0)\<close> writes \<open>()\<close> and
  \<open>add_array(3)\<close> writes \<open>(?,?,?)\<close>. The two-argument form writes, for every number of
  columns and rows, the groups joined by a comma and a space, because each group after the
  first is written by the one-argument form onto a buffer that ends in a comma;
  \<open>add_array(2,3)\<close> writes \<open>(?,?), (?,?), (?,?)\<close>.
\<close>

theorem add_array_texts:
  "ss (add_array 0 (q\<lparr>ss := []\<rparr>)) = ''()'' \<and>
   ss (add_array 3 (q\<lparr>ss := []\<rparr>)) = ''(?,?,?)'' \<and>
   ss (add_array_rows 2 3 (q\<lparr>ss := []\<rparr>)) = ''(?,?), (?,?), (?,?)'' \<and>
   ss (add_array_rows columns rows (q\<lparr>ss := []\<rparr>)) =
     join '', '' (replicate rows (marker_group columns))"
proof -
  have "ss (add_array 0 (q\<lparr>ss := []\<rparr>)) = ''()''"
    by (simp add: ss_add_array ss_separate marker_group_values)
  moreover have "ss (add_array 3 (q\<lparr>ss := []\<rparr>)) = ''(?,?,?)''"
    by (simp add: ss_add_array ss_separate marker_group_values)
  moreover have "ss (add_array_rows 2 3 (q\<lparr>ss := []\<rparr>)) = ''(?,?), (?,?), (?,?)''"
    by (simp add: ss_add_array_rows marker_group_values numeral_3_eq_3)
  ultimately show ?thesis by (simp add: ss_add_array_rows)
qed

theorem add_array_texts_witness:
  "ss (add_array 0 (Query_new\<lparr>ss := []\<rparr>)) = ''()'' \<and>
   ss (add_array 3 (Query_new\<lparr>ss := []\<rparr>)) = ''(?,?,?)'' \<and>
   ss (add_array_rows 2 3 (Query_new\<lparr>ss := []\<rparr>)) = ''(?,?), (?,?), (?,?)'' \<and>
   ss (add_array_rows 1 2 (Query_new\<lparr>ss := []\<rparr>)) = ''(?), (?)''"
  using add_array_texts [of Query_new 1 2]
  by (simp add: marker_group_def numeral_2_eq_2)

text \<open>
  C3 as stated fails on the code: \<open>add_array(2,3)\<close> on a new statement does not assemble
  \<open>(?,?),(?,?),(?,?)\<close>, there is a space after each comma between groups.
\<close>

theorem add_array_rows_counterexample:
  "ss (add_array_rows 2 3 Query_new) = ''(?,?), (?,?), (?,?)'' \<and>
   ss (add_array_rows 2 3 Query_new) \<noteq> ''(?,?),(?,?),(?,?)''"
proof -
  have "ss (add_array_rows 2 3 (Query_new\<lparr>ss := []\<rparr>)) = ''(?,?), (?,?), (?,?)''"
    by (simp add: ss_add_array_rows marker_group_values numeral_3_eq_3)
  then show ?thesis by (simp add: Query_new_def)
qed

text \<open>
  C4 at the input where the code departs from it: the \<open>const char *\<close> overload, given the
  empty C string on the buffer \<open>SELECT\<close>, writes a separator space. The null pointer and the
  empty \<open>std::string\<close> leave every buffer unchanged (lemma \<open>null_and_empty_string_unchanged\<close>).
\<close>

theorem empty_c_str_appends_space:
  "ss (shl_c_str (Some []) (Query_new\<lparr>ss := ''SELECT''\<rparr>)) = ''SELECT ''"
  by (simp add: shl_c_str_def separate_def isspace_def)

lemma null_and_empty_string_unchanged:
  "shl_c_str None q = q \<and> shl_string [] q = q"
  by (simp add: shl_c_str_def shl_string_def)

text \<open>
  C5, as the code has it, for the two text overloads. A non-empty fragment is appended
  after one space exactly when the buffer is non-empty and does not end in whitespace.
  Hence a chain of non-empty fragments on an empty buffer assembles the fragments in
  order with one inserted space between two consecutive fragments when the earlier one
  does not end in whitespace, and none when it does; whitespace at the start of a
  fragment is not looked at.
\<close>

theorem appends_assemble:
  "(text_of f \<noteq> [] \<longrightarrow>
      ss (shl q f) =
        ss q @ (if ss q \<noteq> [] \<and> \<not> isspace (last (ss q)) then '' '' else []) @ text_of f) \<and>
   ((\<forall>g \<in> set fs. text_of g \<noteq> []) \<longrightarrow>
      ss (shl_all (q\<lparr>ss := []\<rparr>) fs) = assembled (map text_of fs))"
  using ss_shl [of f q] ss_shl_all_empty [of fs q] by blast

theorem appends_assemble_witness:
  "text_of (std_string ''b'') \<noteq> [] \<and>
   ss (shl (Query_new\<lparr>ss := ''a''\<rparr>) (std_string ''b'')) = ''a b'' \<and>
   text_of (std_string ''a '') \<noteq> [] \<and> text_of (c_str (Some '' b'')) \<noteq> [] \<and>
   text_of (std_string ''c'') \<noteq> [] \<and>
   ss (shl_all Query_new [std_string ''a '', c_str (Some '' b''), std_string ''c'']) = ''a  b c''"
  using appends_assemble [of "std_string ''b''" "Query_new\<lparr>ss := ''a''\<rparr>"
      "[std_string ''a '', c_str (Some '' b''), std_string ''c'']"]
  by (simp add: Query_new_def isspace_def)

text \<open>
  C5 as stated fails on the code: appending \<open>"a "\<close> and then \<open>" b"\<close> assembles \<open>a\<close>, two
  spaces and \<open>b\<close>. That is neither the two fragments joined by exactly one separating
  space, nor a text with exactly one space between them.
\<close>

theorem appends_counterexample:
  "ss (shl_all Query_new [std_string ''a '', std_string '' b'']) = ''a  b'' \<and>
   ss (shl_all Query_new [std_string ''a '', std_string '' b'']) \<noteq> join '' '' [''a '', '' b'']"
  by (simp add: shl_all_def shl_string_def separate_def Query_new_def isspace_def Let_def)

section \<open>Properties of the transaction scope\<close>

lemma issued_append: "issued (xs @ ys) = issued xs @ issued ys"
  by (induction xs rule: issued.induct) simp_all

lemma accepted_append: "accepted (xs @ ys) = accepted xs @ accepted ys"
  by (induction xs rule: accepted.induct) simp_all

lemma calls_since_append: "calls e' = calls e @ xs \<Longrightarrow> calls_since e e' = xs"
  by (simp add: calls_since_def)

lemma exec_calls:
  "\<exists>xs. calls (snd (exec sql e)) = calls e @ xs \<and> issued xs = [sql] \<and>
        accepted xs = (if isl (fst (exec sql e)) then [] else [sql])"
  by (auto simp: exec_def record_call_def Let_def)

lemma exec_Inl:
  "exec sql e = (Inl ex, e') \<Longrightarrow>
   \<exists>xs. calls e' = calls e @ xs \<and> issued xs = [sql] \<and> accepted xs = []"
  using exec_calls [of sql e] by auto

lemma exec_Inr:
  "exec sql e = (Inr u, e') \<Longrightarrow>
   \<exists>xs. calls e' = calls e @ xs \<and> issued xs = [sql] \<and> accepted xs = [sql]"
  using exec_calls [of sql e] by auto

lemma destroy_calls:
  "\<exists>xs. calls (snd (snd (Transaction_destroy u t e))) = calls e @ xs \<and>
        length (accepted xs) \<le> 1 \<and> (\<not> database t \<longrightarrow> xs = []) \<and>
        (database t \<longrightarrow>
           issued xs = [if exception_count t = u then ''COMMIT'' else ''ROLLBACK''])"
proof (cases "exec ''COMMIT'' e"; cases "exec ''ROLLBACK'' e")
  fix r1 e1 r2 e2
  assume a: "exec ''COMMIT'' e = (r1, e1)" "exec ''ROLLBACK'' e = (r2, e2)"
  show ?thesis
    using exec_calls [of "''COMMIT''" e] exec_calls [of "''ROLLBACK''" e] a
    by (cases r2) (auto simp: Transaction_destroy_def split: if_splits)
qed

lemma destroy_rollback_swallowed:
  "database t \<Longrightarrow> exception_count t \<noteq> u \<Longrightarrow> fst (Transaction_destroy u t e) = Inr ()"
  by (auto simp: Transaction_destroy_def split: prod.splits sum.splits)

lemma do_call_closed: "\<not> database t \<Longrightarrow> snd (do_call c t e) = (t, e)"
  by (cases c) (simp_all add: commit_def rollback_def)

lemma scope_calls_closed: "\<not> database t \<Longrightarrow> scope_calls cs t e = (t, e)"
proof (induction cs)
  case Nil
  then show ?case by simp
next
  case (Cons c cs)
  then show ?case using do_call_closed [of t c e] by (cases "do_call c t e") simp
qed

lemma scope_life_closed: "\<not> database t \<Longrightarrow> scope_life cs u t e = e"
  by (simp add: scope_life_def scope_calls_closed Transaction_destroy_def)

lemma commit_active:
  assumes "database t" and "commit t e = (r, t', e')"
  shows "\<exists>xs. calls e' = calls e @ xs \<and> issued xs = [''COMMIT''] \<and>
           ((isl r \<and> t' = t \<and> accepted xs = []) \<or>
            (\<not> isl r \<and> \<not> database t' \<and> length (accepted xs) = 1))"
proof (cases "exec ''COMMIT'' e")
  case (Pair r1 e1)
  then show ?thesis
    using assms exec_Inl [of "''COMMIT''" e _ e1] exec_Inr [of "''COMMIT''" e _ e1]
    by (cases r1) (auto simp: commit_def)
qed

lemma rollback_active:
  assumes "database t" and "rollback t e = (r, t', e')"
  shows "\<exists>xs. calls e' = calls e @ xs \<and> issued xs = [''ROLLBACK''] \<and>
           ((isl r \<and> t' = t \<and> accepted xs = []) \<or>
            (\<not> isl r \<and> \<not> database t' \<and> length (accepted xs) = 1))"
proof (cases "exec ''ROLLBACK'' e")
  case (Pair r1 e1)
  then show ?thesis
    using assms exec_Inl [of "''ROLLBACK''" e _ e1] exec_Inr [of "''ROLLBACK''" e _ e1]
    by (cases r1) (auto simp: rollback_def)
qed

lemma do_call_active:
  assumes "database t" and "do_call c t e = (r, t', e')"
  shows "\<exists>xs. calls e' = calls e @ xs \<and>
           ((isl r \<and> t' = t \<and> accepted xs = []) \<or>
            (\<not> isl r \<and> \<not> database t' \<and> length (accepted xs) = 1))"
proof (cases c)
  case Commit
  then show ?thesis using commit_active [of t e r t' e'] assms by auto
next
  case Rollback
  then show ?thesis using rollback_active [of t e r t' e'] assms by auto
qed

lemma scope_life_accepted:
  "\<exists>xs. calls (scope_life cs u t e) = calls e @ xs \<and> length (accepted xs) \<le> 1"
proof (induction cs arbitrary: t e)
  case Nil
  show ?case using destroy_calls [of u t e] by (auto simp: scope_life_def)
next
  case (Cons c cs)
  show ?case
  proof (cases "database t")
    case False
    then show ?thesis by (simp add: scope_life_closed)
  next
    case True
    obtain r t' e' where d: "do_call c t e = (r, t', e')"
      by (cases "do_call c t e") auto
    have life: "scope_life (c # cs) u t e = scope_life cs u t' e'"
      using d by (simp add: scope_life_def)
    from do_call_active [OF True d] obtain xs where xs: "calls e' = calls e @ xs"
      and alt: "(isl r \<and> t' = t \<and> accepted xs = []) \<or>
                (\<not> isl r \<and> \<not> database t' \<and> length (accepted xs) = 1)"
      by blast
    from alt show ?thesis
    proof
      assume "isl r \<and> t' = t \<and> accepted xs = []"
      moreover from Cons.IH [of t' e'] obtain ys where
        "calls (scope_life cs u t' e') = calls e' @ ys" "length (accepted ys) \<le> 1"
        by blast
      ultimately show ?thesis using xs life by (auto simp: accepted_append)
    next
      assume "\<not> isl r \<and> \<not> database t' \<and> length (accepted xs) = 1"
      then show ?thesis using xs life by (auto simp: scope_life_closed)
    qed
  qed
qed

lemma active_call_issues:
  assumes "database t"
  shows "issued (calls_since e (snd (snd (commit t e)))) = [''COMMIT'']"
    and "database (fst (snd (commit t e))) = isl (fst (commit t e))"
    and "issued (calls_since e (snd (snd (rollback t e)))) = [''ROLLBACK'']"
    and "database (fst (snd (rollback t e))) = isl (fst (rollback t e))"
proof -
  obtain r t' e' where c: "commit t e = (r, t', e')" by (cases "commit t e") auto
  from commit_active [OF assms c] obtain xs where
    "calls e' = calls e @ xs" "issued xs = [''COMMIT'']"
    "(isl r \<and> t' = t \<and> accepted xs = []) \<or> (\<not> isl r \<and> \<not> database t' \<and> length (accepted xs) = 1)"
    by blast
  then show "issued (calls_since e (snd (snd (commit t e)))) = [''COMMIT'']"
    and "database (fst (snd (commit t e))) = isl (fst (commit t e))"
    using c assms by (auto simp: calls_since_def)
  obtain r2 t2 e2 where b: "rollback t e = (r2, t2, e2)" by (cases "rollback t e") auto
  from rollback_active [OF assms b] obtain ys where
    "calls e2 = calls e @ ys" "issued ys = [''ROLLBACK'']"
    "(isl r2 \<and> t2 = t \<and> accepted ys = []) \<or> (\<not> isl r2 \<and> \<not> database t2 \<and> length (accepted ys) = 1)"
    by blast
  then show "issued (calls_since e (snd (snd (rollback t e)))) = [''ROLLBACK'']"
    and "database (fst (snd (rollback t e))) = isl (fst (rollback t e))"
    using b assms by (auto simp: calls_since_def)
qed

lemma exec_exact:
  "exec sql e =
     (let rc = sqlite3_prepare_v2 e (calls e) sql;
          res = sqlite3_step e (calls e @ [Prepare sql rc]) sql;
          e' = e\<lparr>calls := calls e @
                 (if rc = SQLITE_OK then [Prepare sql rc, Step sql res, Finalize sql]
                  else [Prepare sql rc])\<rparr>
      in (if rc \<noteq> SQLITE_OK \<or> (res \<noteq> SQLITE_ROW \<and> res \<noteq> SQLITE_DONE)
          then Inl (DatabaseException (sqlite3_errmsg e (calls e'))) else Inr (), e'))"
  by (simp add: exec_def record_call_def DatabaseException_db_def Let_def)

lemma calls_since_update: "calls_since e (e\<lparr>calls := calls e @ xs\<rparr>) = xs"
  by (simp add: calls_since_def)

lemma destroy_commit_exact:
  "database t \<Longrightarrow> exception_count t = uncaught \<Longrightarrow>
   Transaction_destroy uncaught t e = (fst (exec ''COMMIT'' e), [], snd (exec ''COMMIT'' e))"
  by (simp add: Transaction_destroy_def split: prod.splits)

lemma destroy_rollback_exact:
  "database t \<Longrightarrow> exception_count t \<noteq> uncaught \<Longrightarrow>
   Transaction_destroy uncaught t e =
     (Inr (),
      (case fst (exec ''ROLLBACK'' e) of
         Inl ex \<Rightarrow> ''Transaction rollback error: '' @ what ex @ [CHR 0x0A]
       | Inr u \<Rightarrow> []),
      snd (exec ''ROLLBACK'' e))"
  by (simp add: Transaction_destroy_def split: prod.splits sum.splits)

lemma commit_exact:
  "database t \<Longrightarrow>
   commit t e =
     (case fst (exec ''COMMIT'' e) of
        Inl ex \<Rightarrow> (Inl ex, t, snd (exec ''COMMIT'' e))
      | Inr u \<Rightarrow> (Inr (), t\<lparr>database := False\<rparr>, snd (exec ''COMMIT'' e)))"
  by (simp add: commit_def split: prod.splits sum.splits)

lemma rollback_exact:
  "database t \<Longrightarrow>
   rollback t e =
     (case fst (exec ''ROLLBACK'' e) of
        Inl ex \<Rightarrow> (Inl ex, t, snd (exec ''ROLLBACK'' e))
      | Inr u \<Rightarrow> (Inr (), t\<lparr>database := False\<rparr>, snd (exec ''ROLLBACK'' e)))"
  by (simp add: rollback_def split: prod.splits sum.splits)

lemma active_call_exact:
  assumes "database live"
  shows "(let rc = sqlite3_prepare_v2 e (calls e) ''COMMIT'';
             res = sqlite3_step e (calls e @ [Prepare ''COMMIT'' rc]) ''COMMIT'';
             e' = e\<lparr>calls := calls e @
                    (if rc = SQLITE_OK
                     then [Prepare ''COMMIT'' rc, Step ''COMMIT'' res, Finalize ''COMMIT'']
                     else [Prepare ''COMMIT'' rc])\<rparr>
         in commit live e =
              (if rc \<noteq> SQLITE_OK \<or> (res \<noteq> SQLITE_ROW \<and> res \<noteq> SQLITE_DONE)
               then (Inl (DatabaseException (sqlite3_errmsg e (calls e'))), live, e')
               else (Inr (), live\<lparr>database := False\<rparr>, e')) \<and>
            isl (fst (commit live e)) =
              (accepted (calls_since e (snd (snd (commit live e)))) = []))"
    and "(let rc = sqlite3_prepare_v2 e (calls e) ''ROLLBACK'';
             res = sqlite3_step e (calls e @ [Prepare ''ROLLBACK'' rc]) ''ROLLBACK'';
             e' = e\<lparr>calls := calls e @
                    (if rc = SQLITE_OK
                     then [Prepare ''ROLLBACK'' rc, Step ''ROLLBACK'' res, Finalize ''ROLLBACK'']
                     else [Prepare ''ROLLBACK'' rc])\<rparr>
         in rollback live e =
              (if rc \<noteq> SQLITE_OK \<or> (res \<noteq> SQLITE_ROW \<and> res \<noteq> SQLITE_DONE)
               then (Inl (DatabaseException (sqlite3_errmsg e (calls e'))), live, e')
               else (Inr (), live\<lparr>database := False\<rparr>, e')) \<and>
            isl (fst (rollback live e)) =
              (accepted (calls_since e (snd (snd (rollback live e)))) = []))"
  using assms
  by (simp_all add: commit_exact rollback_exact exec_exact Let_def calls_since_update)

text \<open>
  C1. For a scope that is still active when it is destroyed, the destructor only adds
  calls to the engine's history. When the count of uncaught exceptions equals the one
  captured at construction it executes exactly one \<open>COMMIT\<close>: the statement is prepared,
  and when the engine compiled it, stepped and finalized; nothing else is asked of the
  engine, and the destructor raises exactly when the engine rejected the statement.
  When the count has increased it executes exactly one \<open>ROLLBACK\<close> in the same way and
  returns normally whatever the engine answered; a rejection only leaves a line on
  \<open>std::cerr\<close>.
\<close>

theorem destructor_commits_or_rolls_back:
  assumes "database t"
  shows
    "(let d = Transaction_destroy uncaught t e; e' = snd (snd d)
      in calls e' = calls e @ calls_since e e' \<and>
         (exception_count t = uncaught \<longrightarrow>
            issued (calls_since e e') = [''COMMIT''] \<and>
            (let rc = sqlite3_prepare_v2 e (calls e) ''COMMIT'';
                 res = sqlite3_step e (calls e @ [Prepare ''COMMIT'' rc]) ''COMMIT''
             in calls_since e e' =
                  (if rc = SQLITE_OK
                   then [Prepare ''COMMIT'' rc, Step ''COMMIT'' res, Finalize ''COMMIT'']
                   else [Prepare ''COMMIT'' rc]) \<and>
                e' = e\<lparr>calls := calls e @ calls_since e e'\<rparr> \<and>
                d = (if rc \<noteq> SQLITE_OK \<or> (res \<noteq> SQLITE_ROW \<and> res \<noteq> SQLITE_DONE)
                     then Inl (DatabaseException (sqlite3_errmsg e (calls e')))
                     else Inr (), [], e'))) \<and>
         (exception_count t <s uncaught \<longrightarrow>
            issued (calls_since e e') = [''ROLLBACK''] \<and>
            fst d = Inr () \<and>
            (let rc = sqlite3_prepare_v2 e (calls e) ''ROLLBACK'';
                 res = sqlite3_step e (calls e @ [Prepare ''ROLLBACK'' rc]) ''ROLLBACK''
             in calls_since e e' =
                  (if rc = SQLITE_OK
                   then [Prepare ''ROLLBACK'' rc, Step ''ROLLBACK'' res, Finalize ''ROLLBACK'']
                   else [Prepare ''ROLLBACK'' rc]) \<and>
                e' = e\<lparr>calls := calls e @ calls_since e e'\<rparr> \<and>
                fst (snd d) =
                  (if rc \<noteq> SQLITE_OK \<or> (res \<noteq> SQLITE_ROW \<and> res \<noteq> SQLITE_DONE)
                   then ''Transaction rollback error: '' @ sqlite3_errmsg e (calls e')
                          @ [CHR 0x0A]
                   else []))))"
proof -
  have c: "exception_count t = uncaught \<Longrightarrow> ?thesis"
    using assms
    by (simp add: destroy_commit_exact exec_exact [of "''COMMIT''" e] Let_def calls_since_update)
  have n: "exception_count t <s uncaught \<Longrightarrow> exception_count t \<noteq> uncaught"
    by auto
  have r: "exception_count t \<noteq> uncaught \<Longrightarrow> ?thesis"
    using assms
    by (simp add: destroy_rollback_exact exec_exact [of "''ROLLBACK''" e] Let_def
        calls_since_update)
  show ?thesis using c r by blast
qed

theorem destructor_commits_or_rolls_back_witness:
  "database active \<and> exception_count active <s 1 \<and>
   issued (calls_since (engine all_busy SQLITE_OK None 0)
     (snd (snd (Transaction_destroy 1 active (engine all_busy SQLITE_OK None 0))))) = [''ROLLBACK''] \<and>
   Transaction_destroy 1 active (engine all_busy SQLITE_OK None 0) =
     (Inr (), ''Transaction rollback error: engine error'' @ [CHR 0x0A],
      (engine all_busy SQLITE_OK None 0)
        \<lparr>calls := [Prepare ''ROLLBACK'' SQLITE_OK, Step ''ROLLBACK'' (SQLITE_FAILURE 5),
                   Finalize ''ROLLBACK'']\<rparr>) \<and>
   exception_count active = 0 \<and>
   issued (calls_since (engine all_done SQLITE_OK None 0)
     (snd (snd (Transaction_destroy 0 active (engine all_done SQLITE_OK None 0))))) = [''COMMIT''] \<and>
   Transaction_destroy 0 active (engine all_done SQLITE_OK None 0) =
     (Inr (), [],
      (engine all_done SQLITE_OK None 0)
        \<lparr>calls := [Prepare ''COMMIT'' SQLITE_OK, Step ''COMMIT'' SQLITE_DONE,
                   Finalize ''COMMIT'']\<rparr>)"
  using destructor_commits_or_rolls_back [of active 1 "engine all_busy SQLITE_OK None 0"]
    destructor_commits_or_rolls_back [of active 0 "engine all_done SQLITE_OK None 0"]
  by (simp add: active_def engine_def all_busy_def all_done_def word_sless_alt Let_def
      calls_since_def Transaction_destroy_def exec_def record_call_def DatabaseException_db_def)

text \<open>
  C8, as the code has it. \<open>commit()\<close> and \<open>rollback()\<close> on an active scope execute their one
  statement. When the engine accepts it they return normally and the scope is closed;
  when the engine rejects it they raise \<open>DatabaseException\<close> with the engine's message and
  the scope is left exactly as it was, still active. So a call raises exactly when no
  statement of it was accepted, and over the whole life of a scope (any explicit calls,
  then the destructor) at most one statement is accepted by the engine. On a closed scope
  both calls raise the "inactive transaction" error and leave the scope and the engine as
  they were.
\<close>

theorem scope_closes_once:
  "length (accepted (calls_since e (scope_life cs uncaught t e))) \<le> 1 \<and>
   (\<not> database closed \<longrightarrow>
      commit closed e =
        (Inl (DatabaseException ''Can't commit on inactive transaction''), closed, e) \<and>
      rollback closed e =
        (Inl (DatabaseException ''Can't rollback on inactive transaction''), closed, e)) \<and>
   (database live \<longrightarrow>
      issued (calls_since e (snd (snd (commit live e)))) = [''COMMIT''] \<and>
      database (fst (snd (commit live e))) = isl (fst (commit live e)) \<and>
      issued (calls_since e (snd (snd (rollback live e)))) = [''ROLLBACK''] \<and>
      database (fst (snd (rollback live e))) = isl (fst (rollback live e)) \<and>
      (let rc = sqlite3_prepare_v2 e (calls e) ''COMMIT'';
           res = sqlite3_step e (calls e @ [Prepare ''COMMIT'' rc]) ''COMMIT'';
           e' = e\<lparr>calls := calls e @
                  (if rc = SQLITE_OK
                   then [Prepare ''COMMIT'' rc, Step ''COMMIT'' res, Finalize ''COMMIT'']
                   else [Prepare ''COMMIT'' rc])\<rparr>
       in commit live e =
            (if rc \<noteq> SQLITE_OK \<or> (res \<noteq> SQLITE_ROW \<and> res \<noteq> SQLITE_DONE)
             then (Inl (DatabaseException (sqlite3_errmsg e (calls e'))), live, e')
             else (Inr (), live\<lparr>database := False\<rparr>, e')) \<and>
          isl (fst (commit live e)) =
            (accepted (calls_since e (snd (snd (commit live e)))) = [])) \<and>
      (let rc = sqlite3_prepare_v2 e (calls e) ''ROLLBACK'';
           res = sqlite3_step e (calls e @ [Prepare ''ROLLBACK'' rc]) ''ROLLBACK'';
           e' = e\<lparr>calls := calls e @
                  (if rc = SQLITE_OK
                   then [Prepare ''ROLLBACK'' rc, Step ''ROLLBACK'' res, Finalize ''ROLLBACK'']
                   else [Prepare ''ROLLBACK'' rc])\<rparr>
       in rollback live e =
            (if rc \<noteq> SQLITE_OK \<or> (res \<noteq> SQLITE_ROW \<and> res \<noteq> SQLITE_DONE)
             then (Inl (DatabaseException (sqlite3_errmsg e (calls e'))), live, e')
             else (Inr (), live\<lparr>database := False\<rparr>, e')) \<and>
          isl (fst (rollback live e)) =
            (accepted (calls_since e (snd (snd (rollback live e)))) = [])))"
proof -
  from scope_life_accepted [of cs uncaught t e] obtain xs where
    "calls (scope_life cs uncaught t e) = calls e @ xs" "length (accepted xs) \<le> 1"
    by blast
  then have "length (accepted (calls_since e (scope_life cs uncaught t e))) \<le> 1"
    by (simp add: calls_since_def)
  moreover have "\<not> database closed \<longrightarrow>
      commit closed e =
        (Inl (DatabaseException ''Can't commit on inactive transaction''), closed, e) \<and>
      rollback closed e =
        (Inl (DatabaseException ''Can't rollback on inactive transaction''), closed, e)"
    by (simp add: commit_def rollback_def)
  ultimately show ?thesis
    using active_call_issues [of live e] active_call_exact [of live e] by blast
qed

theorem scope_closes_once_witness:
  "length (accepted (calls_since (engine commit_busy SQLITE_OK None 0)
     (scope_life [Commit, Rollback, Commit] 1 active (engine commit_busy SQLITE_OK None 0)))) \<le> 1 \<and>
   \<not> database (active\<lparr>database := False\<rparr>) \<and>
   commit (active\<lparr>database := False\<rparr>) (engine commit_busy SQLITE_OK None 0) =
     (Inl (DatabaseException ''Can't commit on inactive transaction''),
      active\<lparr>database := False\<rparr>, engine commit_busy SQLITE_OK None 0) \<and>
   database active \<and>
   issued (calls_since (engine commit_busy SQLITE_OK None 0)
     (snd (snd (commit active (engine commit_busy SQLITE_OK None 0))))) = [''COMMIT''] \<and>
   database (fst (snd (commit active (engine commit_busy SQLITE_OK None 0)))) \<and>
   commit active (engine commit_busy SQLITE_OK None 0) =
     (Inl (DatabaseException ''engine error''), active,
      (engine commit_busy SQLITE_OK None 0)
        \<lparr>calls := [Prepare ''COMMIT'' SQLITE_OK, Step ''COMMIT'' (SQLITE_FAILURE 5),
                   Finalize ''COMMIT'']\<rparr>) \<and>
   rollback active (engine commit_busy SQLITE_OK None 0) =
     (Inr (), active\<lparr>database := False\<rparr>,
      (engine commit_busy SQLITE_OK None 0)
        \<lparr>calls := [Prepare ''ROLLBACK'' SQLITE_OK, Step ''ROLLBACK'' SQLITE_DONE,
                   Finalize ''ROLLBACK'']\<rparr>)"
  using scope_closes_once [of "engine commit_busy SQLITE_OK None 0" "[Commit, Rollback, Commit]"
      1 active "active\<lparr>database := False\<rparr>" active]
  by (simp add: active_def commit_def rollback_def exec_def engine_def commit_busy_def
      record_call_def DatabaseException_db_def Let_def)

text \<open>
  C8 as stated fails on the code: when the engine rejects the \<open>COMMIT\<close> of an explicit
  \<open>commit()\<close>, the scope is still active afterwards, and its destructor, run while that
  error unwinds, issues a \<open>ROLLBACK\<close>: two statements for one scope.
\<close>

theorem failed_commit_counterexample:
  "database (fst (snd (commit active (engine commit_busy SQLITE_OK None 0)))) \<and>
   issued (calls_since (engine commit_busy SQLITE_OK None 0)
     (scope_life [Commit] 1 active (engine commit_busy SQLITE_OK None 0))) =
     [''COMMIT'', ''ROLLBACK'']"
  by (simp add: scope_life_def commit_def exec_def engine_def commit_busy_def record_call_def
      active_def Transaction_destroy_def calls_since_def Let_def)

section \<open>Properties of binding and column extraction\<close>

lemma not_sle_iff: "(\<not> (a :: 32 word) \<le>s b) = (b <s a)"
  by (simp add: word_sle_eq word_sless_alt not_le)

lemma in_range_not_out: "(a :: 32 word) <s b \<Longrightarrow> \<not> b \<le>s a"
  by (simp add: not_sle_iff)

lemma sint_succ: "(x :: 32 word) <s y \<Longrightarrow> sint (x + 1) = sint x + 1"
proof -
  assume "x <s y"
  then have "sint x < sint y" by (simp add: word_sless_alt)
  moreover have "sint y < 2 ^ 31" using sint_lt [of y] by simp
  moreover have "- (2 ^ 31) \<le> sint x" using sint_ge [of x] by simp
  ultimately have "signed_take_bit 31 (sint x + 1) = sint x + 1"
    by (intro signed_take_bit_int_eq_self) auto
  then show ?thesis by (simp add: sint_word_ariths)
qed

lemma get_int64_in_range:
  "col_idx q <s col_count q \<Longrightarrow>
   get_int64 q e =
     (Inr (sqlite3_column_int64 e (calls e) (stmt q) (col_idx q)), q\<lparr>col_idx := col_idx q + 1\<rparr>)"
  by (simp add: get_int64_def in_range_not_out)

lemma get_int64_out:
  "col_count q \<le>s col_idx q \<Longrightarrow>
   get_int64 q e = (Inl (DatabaseException ''Column is out of range''), q)"
  by (simp add: get_int64_def)

lemma get_string_in_range:
  "col_idx q <s col_count q \<Longrightarrow>
   get_string q e =
     (Inr (case sqlite3_column_text e (calls e) (stmt q) (col_idx q) of Some s \<Rightarrow> s | None \<Rightarrow> []),
      q\<lparr>col_idx := col_idx q + 1\<rparr>)"
  by (simp add: get_string_def in_range_not_out)

text \<open>
  C6. When the column cursor is at or past the cached column count, each of \<open>skip\<close>,
  \<open>get_string\<close>, \<open>get_int32\<close>, \<open>get_uint32\<close>, \<open>get_int64\<close>, \<open>get_uint64\<close>, \<open>get_double\<close>
  and \<open>get_int64_array\<close> raises \<open>DatabaseException\<close> with the message
  "Column is out of range" and leaves the statement, its cursor included, as it was.
\<close>

theorem extraction_past_last_column_raises:
  assumes "col_count q \<le>s col_idx q"
  shows "skip q = (Inl (DatabaseException ''Column is out of range''), q) \<and>
         get_string q e = (Inl (DatabaseException ''Column is out of range''), q) \<and>
         get_int32 q e = (Inl (DatabaseException ''Column is out of range''), q) \<and>
         get_uint32 q e = (Inl (DatabaseException ''Column is out of range''), q) \<and>
         get_int64 q e = (Inl (DatabaseException ''Column is out of range''), q) \<and>
         get_uint64 q e = (Inl (DatabaseException ''Column is out of range''), q) \<and>
         get_double q e = (Inl (DatabaseException ''Column is out of range''), q) \<and>
         get_int64_array delimiter q e = (Inl (DatabaseException ''Column is out of range''), q)"
  using assms
  by (simp add: skip_def get_string_def get_int32_def get_uint32_def get_int64_def
      get_uint64_def get_double_def get_int64_array_def)

theorem extraction_past_last_column_raises_witness:
  "col_count (on_row 1) \<le>s col_idx (on_row 1) \<and>
   skip (on_row 1) = (Inl (DatabaseException ''Column is out of range''), on_row 1) \<and>
   get_uint32 (on_row 1) (engine all_done SQLITE_OK (Some ''7'') 7) =
     (Inl (DatabaseException ''Column is out of range''), on_row 1) \<and>
   get_int64_array (CHR '','') (on_row 1) (engine all_done SQLITE_OK (Some ''7'') 7) =
     (Inl (DatabaseException ''Column is out of range''), on_row 1)"
  using extraction_past_last_column_raises
    [of "on_row 1" "engine all_done SQLITE_OK (Some ''7'') 7" "CHR '',''"]
  by (simp add: on_row_def)

text \<open>
  C9. \<open>is_null()\<close> answers true exactly when the engine reports the storage class null for
  the column under the cursor, always returns normally and leaves the statement, its
  cursor included, unchanged. It makes no bounds check: with the cursor at or past the
  column count, where \<open>skip\<close> raises "Column is out of range", it still returns the
  engine's answer.
\<close>

theorem is_null_peeks_unchecked:
  "(fst (is_null q e) = Inr True) =
     (sqlite3_column_type e (calls e) (stmt q) (col_idx q) = SQLITE_NULL) \<and>
   \<not> isl (fst (is_null q e)) \<and>
   snd (is_null q e) = q \<and>
   (col_count q \<le>s col_idx q \<longrightarrow>
      fst (skip q) = Inl (DatabaseException ''Column is out of range'') \<and>
      fst (is_null q e) =
        Inr (sqlite3_column_type e (calls e) (stmt q) (col_idx q) = SQLITE_NULL))"
  by (simp add: is_null_def skip_def)

theorem is_null_peeks_unchecked_witness:
  "col_count (on_row 1) \<le>s col_idx (on_row 1) \<and>
   fst (skip (on_row 1)) = Inl (DatabaseException ''Column is out of range'') \<and>
   is_null (on_row 1) (engine all_done SQLITE_OK None 0) = (Inr True, on_row 1) \<and>
   is_null (on_row 1) (engine all_done SQLITE_OK (Some ''x'') 0) = (Inr False, on_row 1)"
  using is_null_peeks_unchecked [of "on_row 1" "engine all_done SQLITE_OK None 0"]
    is_null_peeks_unchecked [of "on_row 1" "engine all_done SQLITE_OK (Some ''x'') 0"]
  by (simp add: on_row_def engine_def is_null_def)

text \<open>
  C10. \<open>get_uint32\<close> raises "uint32 value is out of range" exactly when the cursor is
  inside the row and the signed 64-bit value read there is negative or above the unsigned
  32-bit maximum, and \<open>get_uint64\<close> raises "uint64 value is out of range" exactly when the
  cursor is inside the row and that value is negative. In both cases the statement left
  behind has its cursor one column further: the read that failed has consumed the column.
\<close>

theorem unsigned_reads_advance_before_check:
  "(get_uint32 q e = (Inl (DatabaseException ''uint32 value is out of range''), q')) =
     (col_idx q <s col_count q \<and>
      (sqlite3_column_int64 e (calls e) (stmt q) (col_idx q) <s 0 \<or>
       4294967295 <s sqlite3_column_int64 e (calls e) (stmt q) (col_idx q)) \<and>
      q' = q\<lparr>col_idx := col_idx q + 1\<rparr> \<and> sint (col_idx q') = sint (col_idx q) + 1) \<and>
   (get_uint64 q e = (Inl (DatabaseException ''uint64 value is out of range''), q')) =
     (col_idx q <s col_count q \<and>
      sqlite3_column_int64 e (calls e) (stmt q) (col_idx q) <s 0 \<and>
      q' = q\<lparr>col_idx := col_idx q + 1\<rparr> \<and> sint (col_idx q') = sint (col_idx q) + 1)"
proof (cases "col_idx q <s col_count q")
  case True
  then show ?thesis
    using sint_succ [OF True] by (auto simp: get_uint32_def get_uint64_def get_int64_in_range)
next
  case False
  then have "col_count q \<le>s col_idx q"
    using not_sle_iff [of "col_count q" "col_idx q"] by blast
  then show ?thesis using False by (simp add: get_uint32_def get_uint64_def get_int64_out)
qed

theorem unsigned_reads_advance_before_check_witness:
  "get_uint32 (on_row 0) (engine all_done SQLITE_OK None (- 1)) =
     (Inl (DatabaseException ''uint32 value is out of range''), on_row 1) \<and>
   get_uint32 (on_row 0) (engine all_done SQLITE_OK None 4294967296) =
     (Inl (DatabaseException ''uint32 value is out of range''), on_row 1) \<and>
   get_uint64 (on_row 0) (engine all_done SQLITE_OK None (- 1)) =
     (Inl (DatabaseException ''uint64 value is out of range''), on_row 1) \<and>
   col_idx (on_row 1) = col_idx (on_row 0) + 1"
  using unsigned_reads_advance_before_check
      [of "on_row 0" "engine all_done SQLITE_OK None (- 1)" "on_row 1"]
    unsigned_reads_advance_before_check
      [of "on_row 0" "engine all_done SQLITE_OK None 4294967296" "on_row 1"]
  by (simp add: on_row_def engine_def word_sless_alt)

lemma get_int64_array_while_segments:
  "get_int64_array_while d s acc =
     (if \<exists>seg \<in> set (segments d s). isl (stoll seg)
      then Inl (projl (stoll (hd (filter (\<lambda>seg. isl (stoll seg)) (segments d s)))))
      else Inr (acc @ map (\<lambda>seg. projr (stoll seg)) (segments d s)))"
proof (induction d s acc rule: get_int64_array_while.induct)
  case (1 d s acc)
  show ?case
  proof (cases "getline d s")
    case None
    then show ?thesis
      by (simp add: get_int64_array_while.simps [of d s] segments.simps [of d s])
  next
    case (Some p)
    then obtain tmp s' where g: "getline d s = Some (tmp, s')" by (cases p) simp
    show ?thesis
    proof (cases "stoll tmp")
      case (Inl ex)
      then show ?thesis using g
        by (simp add: get_int64_array_while.simps [of d s] segments.simps [of d s])
    next
      case (Inr v)
      have "get_int64_array_while d s' (acc @ [v]) =
        (if \<exists>seg \<in> set (segments d s'). isl (stoll seg)
         then Inl (projl (stoll (hd (filter (\<lambda>seg. isl (stoll seg)) (segments d s')))))
         else Inr ((acc @ [v]) @ map (\<lambda>seg. projr (stoll seg)) (segments d s')))"
        using 1 [OF g refl Inr] .
      then show ?thesis using g Inr
        by (simp add: get_int64_array_while.simps [of d s] segments.simps [of d s])
    qed
  qed
qed

lemma get_int64_array_in_range:
  assumes "col_idx q <s col_count q"
    and "sqlite3_column_text e (calls e) (stmt q) (col_idx q) = Some content"
  shows "get_int64_array d q e = (get_int64_array_while d content [], q\<lparr>col_idx := col_idx q + 1\<rparr>)"
  using assms by (simp add: get_int64_array_def get_string_in_range)

lemma loop_on_examples:
  "get_int64_array_while (CHR '','') ''1,2,,3'' [] = Inl (invalid_argument ''stoll'')"
  "get_int64_array_while (CHR '','') ''1,2,3'' [] = Inr [1, 2, 3]"
  "segments (CHR '','') ''1,2,,3'' = [''1'', ''2'', [], ''3'']"
  "stoll [] = Inl (invalid_argument ''stoll'')"
  by code_simp+

text \<open>
  C2, as the code has it. The loop hands every segment that \<open>std::getline\<close> yields to
  \<open>std::stoll\<close>, the empty ones too. So, with the cursor inside the row: the cursor moves
  one column on; the call raises exactly when \<open>std::stoll\<close> rejects one of the segments,
  and otherwise returns the parsed values in order; the text \<open>1,2,,3\<close> has the segments
  \<open>1\<close>, \<open>2\<close>, the empty one and \<open>3\<close>, the empty one is rejected, and the call raises
  \<open>std::invalid_argument\<close>; the text \<open>1,2,3\<close> gives the sequence 1, 2, 3.
\<close>

theorem get_int64_array_parses_every_segment:
  assumes "col_idx q <s col_count q"
    and "sqlite3_column_text e (calls e) (stmt q) (col_idx q) = Some content"
  shows "snd (get_int64_array delimiter q e) = q\<lparr>col_idx := col_idx q + 1\<rparr> \<and>
         isl (fst (get_int64_array delimiter q e)) =
           (\<exists>seg \<in> set (segments delimiter content). isl (stoll seg)) \<and>
         (\<not> isl (fst (get_int64_array delimiter q e)) \<longrightarrow>
            fst (get_int64_array delimiter q e) =
              Inr (map (\<lambda>seg. projr (stoll seg)) (segments delimiter content))) \<and>
         (content = ''1,2,,3'' \<longrightarrow>
            segments (CHR '','') content = [''1'', ''2'', [], ''3''] \<and>
            stoll [] = Inl (invalid_argument ''stoll'') \<and>
            fst (get_int64_array (CHR '','') q e) = Inl (invalid_argument ''stoll'')) \<and>
         (content = ''1,2,3'' \<longrightarrow> fst (get_int64_array (CHR '','') q e) = Inr [1, 2, 3])"
proof -
  have a: "\<And>d. get_int64_array d q e =
      (get_int64_array_while d content [], q\<lparr>col_idx := col_idx q + 1\<rparr>)"
    using assms by (rule get_int64_array_in_range)
  have "isl (get_int64_array_while delimiter content []) =
      (\<exists>seg \<in> set (segments delimiter content). isl (stoll seg))"
    by (simp add: get_int64_array_while_segments [of delimiter content "[]"])
  moreover have "\<not> isl (get_int64_array_while delimiter content []) \<longrightarrow>
      get_int64_array_while delimiter content [] =
        Inr (map (\<lambda>seg. projr (stoll seg)) (segments delimiter content))"
    by (simp add: get_int64_array_while_segments [of delimiter content "[]"])
  ultimately show ?thesis using a loop_on_examples by simp
qed

theorem get_int64_array_parses_every_segment_witness:
  "col_idx (on_row 0) <s col_count (on_row 0) \<and>
   sqlite3_column_text (engine all_done SQLITE_OK (Some ''1,2,,3'') 0)
     (calls (engine all_done SQLITE_OK (Some ''1,2,,3'') 0)) (stmt (on_row 0)) (col_idx (on_row 0))
     = Some ''1,2,,3'' \<and>
   get_int64_array (CHR '','') (on_row 0) (engine all_done SQLITE_OK (Some ''1,2,,3'') 0) =
     (Inl (invalid_argument ''stoll''), on_row 1) \<and>
   sqlite3_column_text (engine all_done SQLITE_OK (Some ''1,2,3'') 0)
     (calls (engine all_done SQLITE_OK (Some ''1,2,3'') 0)) (stmt (on_row 0)) (col_idx (on_row 0))
     = Some ''1,2,3'' \<and>
   get_int64_array (CHR '','') (on_row 0) (engine all_done SQLITE_OK (Some ''1,2,3'') 0) =
     (Inr [1, 2, 3], on_row 1)"
proof -
  have r: "col_idx (on_row 0) <s col_count (on_row 0)"
    by (simp add: on_row_def word_sless_alt)
  have t1: "sqlite3_column_text (engine all_done SQLITE_OK (Some ''1,2,,3'') 0)
     (calls (engine all_done SQLITE_OK (Some ''1,2,,3'') 0)) (stmt (on_row 0)) (col_idx (on_row 0))
     = Some ''1,2,,3''"
    by (simp add: engine_def)
  have t2: "sqlite3_column_text (engine all_done SQLITE_OK (Some ''1,2,3'') 0)
     (calls (engine all_done SQLITE_OK (Some ''1,2,3'') 0)) (stmt (on_row 0)) (col_idx (on_row 0))
     = Some ''1,2,3''"
    by (simp add: engine_def)
  have s: "on_row 0\<lparr>col_idx := col_idx (on_row 0) + 1\<rparr> = on_row 1"
    by (simp add: on_row_def)
  show ?thesis
    using get_int64_array_parses_every_segment [OF r t1, of "CHR '',''"]
      get_int64_array_parses_every_segment [OF r t2, of "CHR '',''"] r t1 t2 s
    by (simp add: prod_eq_iff)
qed

text \<open>
  C2 as stated fails on the code: on a row whose column holds \<open>1,2,,3\<close> the call with
  delimiter \<open>,\<close> does not return the sequence 1, 2, 3; it raises at the empty segment.
\<close>

theorem get_int64_array_counterexample:
  "fst (get_int64_array (CHR '','') (on_row 0) (engine all_done SQLITE_OK (Some ''1,2,,3'') 0)) =
     Inl (invalid_argument ''stoll'') \<and>
   fst (get_int64_array (CHR '','') (on_row 0) (engine all_done SQLITE_OK (Some ''1,2,,3'') 0)) \<noteq>
     Inr [1, 2, 3]"
proof -
  have "get_int64_array (CHR '','') (on_row 0) (engine all_done SQLITE_OK (Some ''1,2,,3'') 0) =
     (Inl (invalid_argument ''stoll''), on_row 1)"
    by code_simp
  then show ?thesis by simp
qed

lemma bind_uint64_above:
  "int64_max < v \<Longrightarrow>
   bind_uint64 v q e =
     (Inl (DatabaseException ''Can't bind value. Sqlite doesn't support uint64 type''), q, e)"
  by (simp add: bind_uint64_def)

lemma bind_uint64_below: "v \<le> int64_max \<Longrightarrow> bind_uint64 v q e = bind_int64 v q e"
  by (simp add: bind_uint64_def not_less [symmetric])

lemma sint_below_max: "(v :: 64 word) \<le> int64_max \<Longrightarrow> sint v = uint v"
proof -
  assume "v \<le> int64_max"
  then have "uint v \<le> uint int64_max" by (simp add: word_le_def)
  then have "uint v < 2 ^ 63" by (simp add: int64_max_def)
  moreover have "- (2 ^ 63) \<le> uint v"
    by (rule order_trans [of _ 0]) simp_all
  ultimately have "signed_take_bit 63 (uint v) = uint v"
    by (intro signed_take_bit_int_eq_self) simp_all
  then show ?thesis by (simp add: sint_uint)
qed

lemma bind_int64_accepted:
  "fst (bind_int64 v q e) = Inr () \<Longrightarrow>
   last (calls (snd (snd (bind_int64 v q e)))) =
     BindInt64 (stmt (fst (snd (bind_int64 v q e)))) (bind_idx (fst (snd (bind_int64 v q e)))) v
       SQLITE_OK"
  by (auto simp: bind_int64_def prepare_def record_call_def Let_def
      split: if_splits prod.splits sum.splits)

lemma bind_int64_raises:
  "isl (fst (bind_int64 v q e)) \<Longrightarrow>
   (stmt q = None \<and> sqlite3_prepare_v2 e (calls e) (ss q) \<noteq> SQLITE_OK) \<or>
   (\<exists>s i rc. last (calls (snd (snd (bind_int64 v q e)))) = BindInt64 s i v rc \<and>
      rc \<noteq> SQLITE_OK)"
  by (auto simp: bind_int64_def prepare_def record_call_def Let_def
      split: if_splits prod.splits sum.splits)

text \<open>
  C7, as the code has it. A value above the signed 64-bit maximum makes
  \<open>bind(uint64_t)\<close> raise its own error before anything else happens: statement and
  engine are untouched. A value at or below it is passed on unchanged to
  \<open>bind(int64_t)\<close>, where it denotes the same number. So \<open>bind(uint64_t)\<close> raises exactly
  when the value is above the maximum or \<open>bind(int64_t)\<close> of it raises, and the latter
  raises only when the lazy preparation failed or the engine returned an error code for
  the bind. When \<open>bind(uint64_t)\<close> returns normally the engine has received the value
  itself, and reading a column that stores it with \<open>get_int64\<close> gives a signed value
  equal to the unsigned value bound.
\<close>

theorem bind_uint64_range_and_round_trip:
  "(int64_max < v \<longrightarrow>
      bind_uint64 v q e =
        (Inl (DatabaseException ''Can't bind value. Sqlite doesn't support uint64 type''), q, e)) \<and>
   (v \<le> int64_max \<longrightarrow> bind_uint64 v q e = bind_int64 v q e \<and> sint v = uint v) \<and>
   isl (fst (bind_uint64 v q e)) = (int64_max < v \<or> isl (fst (bind_int64 v q e))) \<and>
   (isl (fst (bind_int64 v q e)) \<longrightarrow>
      (stmt q = None \<and> sqlite3_prepare_v2 e (calls e) (ss q) \<noteq> SQLITE_OK) \<or>
      (\<exists>s i rc. last (calls (snd (snd (bind_int64 v q e)))) = BindInt64 s i v rc \<and>
         rc \<noteq> SQLITE_OK)) \<and>
   (fst (bind_uint64 v q e) = Inr () \<longrightarrow>
      last (calls (snd (snd (bind_uint64 v q e)))) =
        BindInt64 (stmt (fst (snd (bind_uint64 v q e))))
          (bind_idx (fst (snd (bind_uint64 v q e)))) v SQLITE_OK) \<and>
   (v \<le> int64_max \<and> col_idx q' <s col_count q' \<and>
    sqlite3_column_int64 e' (calls e') (stmt q') (col_idx q') = v \<longrightarrow>
      (\<exists>r. fst (get_int64 q' e') = Inr r \<and> sint r = uint v))"
proof -
  have 1: "int64_max < v \<longrightarrow>
      bind_uint64 v q e =
        (Inl (DatabaseException ''Can't bind value. Sqlite doesn't support uint64 type''), q, e)"
    by (simp add: bind_uint64_above)
  have 2: "v \<le> int64_max \<longrightarrow> bind_uint64 v q e = bind_int64 v q e \<and> sint v = uint v"
    by (simp add: bind_uint64_below sint_below_max)
  have 3: "isl (fst (bind_uint64 v q e)) = (int64_max < v \<or> isl (fst (bind_int64 v q e)))"
    by (simp add: bind_uint64_def)
  have 4: "isl (fst (bind_int64 v q e)) \<longrightarrow>
      (stmt q = None \<and> sqlite3_prepare_v2 e (calls e) (ss q) \<noteq> SQLITE_OK) \<or>
      (\<exists>s i rc. last (calls (snd (snd (bind_int64 v q e)))) = BindInt64 s i v rc \<and>
         rc \<noteq> SQLITE_OK)"
    using bind_int64_raises [of v q e] by blast
  have 5: "fst (bind_uint64 v q e) = Inr () \<longrightarrow>
      last (calls (snd (snd (bind_uint64 v q e)))) =
        BindInt64 (stmt (fst (snd (bind_uint64 v q e))))
          (bind_idx (fst (snd (bind_uint64 v q e)))) v SQLITE_OK"
    using bind_int64_accepted [of v q e] by (simp add: bind_uint64_def)
  have 6: "v \<le> int64_max \<and> col_idx q' <s col_count q' \<and>
    sqlite3_column_int64 e' (calls e') (stmt q') (col_idx q') = v \<longrightarrow>
      (\<exists>r. fst (get_int64 q' e') = Inr r \<and> sint r = uint v)"
    by (simp add: get_int64_in_range sint_below_max)
  from 1 2 3 4 5 6 show ?thesis by blast
qed

theorem bind_uint64_range_and_round_trip_witness:
  "int64_max < (0x8000000000000000 :: 64 word) \<and>
   fst (bind_uint64 0x8000000000000000 Query_new (engine all_done SQLITE_OK None 0)) =
     Inl (DatabaseException ''Can't bind value. Sqlite doesn't support uint64 type'') \<and>
   (0x7FFFFFFFFFFFFFFF :: 64 word) \<le> int64_max \<and>
   fst (bind_int64 0x7FFFFFFFFFFFFFFF (Query_new\<lparr>ss := ''SELECT ?''\<rparr>)
          (engine all_done SQLITE_OK None 0)) = Inr () \<and>
   fst (bind_uint64 0x7FFFFFFFFFFFFFFF (Query_new\<lparr>ss := ''SELECT ?''\<rparr>)
          (engine all_done SQLITE_OK None 0)) = Inr () \<and>
   col_idx (on_row 0) <s col_count (on_row 0) \<and>
   fst (get_int64 (on_row 0) (engine all_done SQLITE_OK None 0x7FFFFFFFFFFFFFFF)) =
     Inr 0x7FFFFFFFFFFFFFFF \<and>
   sint (0x7FFFFFFFFFFFFFFF :: 64 word) = uint (0x7FFFFFFFFFFFFFFF :: 64 word)"
  using bind_uint64_range_and_round_trip
      [of "0x8000000000000000" Query_new "engine all_done SQLITE_OK None 0" "on_row 0"
        "engine all_done SQLITE_OK None 0x7FFFFFFFFFFFFFFF"]
    bind_uint64_range_and_round_trip
      [of "0x7FFFFFFFFFFFFFFF" "Query_new\<lparr>ss := ''SELECT ?''\<rparr>" "engine all_done SQLITE_OK None 0"
        "on_row 0" "engine all_done SQLITE_OK None 0x7FFFFFFFFFFFFFFF"]
  by (simp add: int64_max_def bind_uint64_def bind_int64_def prepare_def Query_new_def
      engine_def record_call_def on_row_def get_int64_def word_sless_alt word_sle_eq Let_def)

text \<open>
  C7 as stated fails on the code: the value 5 is below the signed 64-bit maximum, yet
  binding it raises \<open>DatabaseException\<close> when the engine rejects the bind (here with the
  code 25, as for a statement without placeholders).
\<close>

theorem bind_uint64_counterexample:
  "isl (fst (bind_uint64 5 (on_row 0) (engine all_done (SQLITE_FAILURE 25) None 0))) \<and>
   \<not> int64_max < (5 :: 64 word)"
  by (simp add: bind_uint64_def bind_int64_def int64_max_def on_row_def engine_def
      record_call_def DatabaseException_db_def Let_def)

end
